theory Spec2Isabelle
  imports Main "HOL-Library.Sublist" "HOL-Library.Char_ord" "HOL-Library.List_Lexorder"
begin

section \<open>Python string helpers\<close>

text \<open>
  Strings are lists of characters. The helpers below embed the Python built-ins that
  \<^verbatim>\<open>md_parser.py\<close> relies on: \<^verbatim>\<open>str(int)\<close>, the format specification
  \<^verbatim>\<open>02d\<close>, \<^verbatim>\<open>str.strip()\<close> and \<^verbatim>\<open>sep.join(parts)\<close>.
\<close>

definition digit_char :: "nat \<Rightarrow> char" where
  \<comment> \<open>only ever applied to \<open>d < 10\<close>\<close>
  "digit_char d = ''0123456789'' ! d"

fun str_nat :: "nat \<Rightarrow> string" where
  "str_nat n = (if n < 10 then [digit_char n] else str_nat (n div 10) @ [digit_char (n mod 10)])"

declare str_nat.simps [simp del]

definition str_int :: "int \<Rightarrow> string" where
  \<comment> \<open>\<^verbatim>\<open>str(i)\<close> and \<^verbatim>\<open>f"{i}"\<close> for a Python int\<close>
  "str_int i = (if i < 0 then CHR ''-'' # str_nat (nat (- i)) else str_nat (nat i))"

definition fmt_02d :: "int \<Rightarrow> string" where
  \<comment> \<open>\<^verbatim>\<open>f"{i:02d}"\<close>: zero padding up to a total width of two, the sign included\<close>
  "fmt_02d i = (if 0 \<le> i \<and> i < 10 then CHR ''0'' # str_int i else str_int i)"

definition isspace :: "char \<Rightarrow> bool" where
  \<comment> \<open>the code points below 256 for which \<^verbatim>\<open>str.isspace\<close> holds\<close>
  "isspace c = (let n = (of_char c :: nat)
                in (9 \<le> n \<and> n \<le> 13) \<or> (28 \<le> n \<and> n \<le> 32) \<or> n = 133 \<or> n = 160)"

definition strip :: "string \<Rightarrow> string" where
  "strip s = rev (dropWhile isspace (rev (dropWhile isspace s)))"

fun join :: "string \<Rightarrow> string list \<Rightarrow> string" where
  "join sep [] = []"
| "join sep [p] = p"
| "join sep (p # q # ps) = p @ sep @ join sep (q # ps)"

section \<open>Timestamps and the clip lookup (md\_parser.py, step 2)\<close>

definition seconds_to_timestamp :: "int \<Rightarrow> string" where
  "seconds_to_timestamp seconds =
     (let minutes = seconds div 60; secs = seconds mod 60
      in str_int minutes @ '':'' @ fmt_02d secs)"

text \<open>
  One entry of \<^verbatim>\<open>quotableClips\<close>. Every key is read with \<^verbatim>\<open>clip.get(key, default)\<close>,
  so every key may be absent.
\<close>

record clip =
  name :: "string option"
  startOffset :: "int option"
  endOffset :: "int option"
  url :: "string option"

text \<open>The value stored in the lookup under a clip name.\<close>

record clip_info =
  clip_start_seconds :: int
  clip_end_seconds :: int
  clip_deep_link :: string
  clip_timestamp :: string

definition get_or :: "'a option \<Rightarrow> 'a \<Rightarrow> 'a" where
  \<comment> \<open>\<^verbatim>\<open>d.get(key, default)\<close> on a key whose presence is the option\<close>
  "get_or v d = (case v of None \<Rightarrow> d | Some x \<Rightarrow> x)"

fun clip_loop :: "clip list \<Rightarrow> (string \<rightharpoonup> clip_info) \<Rightarrow> (string \<rightharpoonup> clip_info)" where
  "clip_loop [] lookup = lookup"
| "clip_loop (c # cs) lookup =
     clip_loop cs
       (lookup(get_or (name c) '''' \<mapsto>
          \<lparr> clip_start_seconds = get_or (startOffset c) 0,
            clip_end_seconds = get_or (endOffset c) 0,
            clip_deep_link = get_or (url c) '''',
            clip_timestamp = seconds_to_timestamp (get_or (startOffset c) 0) \<rparr>))"

definition build_clip_lookup :: "clip list option \<Rightarrow> (string \<rightharpoonup> clip_info)" where
  \<comment> \<open>\<^verbatim>\<open>quotable_clips or []\<close>: an absent list counts as the empty one\<close>
  "build_clip_lookup quotable_clips = clip_loop (get_or quotable_clips []) Map.empty"

section \<open>Transcript entries, episode metadata and chunks\<close>

text \<open>
  An item of the \<^verbatim>\<open>transcript\<close> list is a dictionary; the code tests the presence of the
  keys \<^verbatim>\<open>header\<close> and \<^verbatim>\<open>line\<close> and reads \<^verbatim>\<open>sec\<close>, \<^verbatim>\<open>who\<close> and \<^verbatim>\<open>line\<close> with
  defaults. A key that is absent is \<open>None\<close>. Values are taken at the types the code
  expects of them (text for \<^verbatim>\<open>header\<close>, \<^verbatim>\<open>line\<close>, \<^verbatim>\<open>who\<close>; an integer for \<^verbatim>\<open>sec\<close>).
\<close>

record entry =
  header :: "string option"
  line :: "string option"
  sec :: "int option"
  who :: "string option"

record ids =
  youtube :: "string option"

text \<open>
  The YAML front matter of one episode file. \<^verbatim>\<open>parse_md_file\<close> hands the whole dictionary
  to both chunkers as \<^verbatim>\<open>episode_meta\<close>.
\<close>

record episode_data =
  title :: "string option"
  short :: "string option"
  ids :: "ids option"
  season :: "int option"
  episode :: "int option"
  transcript :: "entry list option"
  quotableClips :: "clip list option"

text \<open>
  The dictionary both chunkers emit. The keys \<^verbatim>\<open>section\<close>, \<^verbatim>\<open>text\<close> and \<^verbatim>\<open>season\<close> are the
  fields \<open>chunk_section\<close>, \<open>chunk_text\<close> and \<open>chunk_season\<close>.
\<close>

record chunk =
  chunk_type :: string
  chunk_section :: string
  chunk_text :: string
  speakers :: string
  episode_title :: string
  short_title :: string
  video_id :: string
  chunk_season :: string
  episode_num :: string
  start_seconds :: int
  timestamp :: string
  deep_link :: string

definition meta_video_id :: "episode_data \<Rightarrow> string" where
  \<comment> \<open>\<^verbatim>\<open>episode_meta.get("ids", {}).get("youtube", "")\<close>\<close>
  "meta_video_id episode_meta =
     (case ids episode_meta of None \<Rightarrow> '''' | Some i \<Rightarrow> get_or (youtube i) '''')"

definition str_opt_int :: "int option \<Rightarrow> string" where
  \<comment> \<open>\<^verbatim>\<open>str(episode_meta.get(key, ""))\<close>\<close>
  "str_opt_int v = (case v of None \<Rightarrow> '''' | Some i \<Rightarrow> str_int i)"

text \<open>
  Both chunkers run the same loop over the lines of a chunk: each line becomes
  \<^verbatim>\<open>"speaker: line"\<close> when it has a speaker and the stripped line otherwise, and the
  speakers are collected in a set.
\<close>

definition text_part :: "entry \<Rightarrow> string" where
  "text_part e =
     (let speaker = get_or (who e) '''';
          ln = strip (get_or (line e) '''')
      in if speaker \<noteq> '''' then speaker @ '': '' @ ln else ln)"

definition text_parts :: "entry list \<Rightarrow> string list" where
  "text_parts lines = map text_part lines"

definition speakers_seen :: "entry list \<Rightarrow> string set" where
  "speakers_seen lines = set (filter (\<lambda>speaker. speaker \<noteq> '''') (map (\<lambda>e. get_or (who e) '''') lines))"

definition base_url :: "string \<Rightarrow> string" where
  "base_url vid = ''https://www.youtube.com/watch?v='' @ vid"

section \<open>Header chunks (md\_parser.py, step 3A)\<close>

text \<open>
  The variables of \<^verbatim>\<open>chunk_by_headers\<close> that the nested \<^verbatim>\<open>flush_chunk\<close> reads and the
  loop updates.
\<close>

record hstate =
  chunks :: "chunk list"
  current_header :: string
  current_lines :: "entry list"
  current_start :: int

definition flush_chunk :: "(string \<rightharpoonup> clip_info) \<Rightarrow> episode_data \<Rightarrow> hstate \<Rightarrow> chunk list" where
  \<comment> \<open>the value of \<^verbatim>\<open>chunks\<close> after the call\<close>
  "flush_chunk clip_lookup episode_meta st =
     (if current_lines st = [] then chunks st
      else
        let combined_text = join '' '' (text_parts (current_lines st));
            (start_sec, link, ts) =
              (case clip_lookup (current_header st) of
                 Some clip_info \<Rightarrow>
                   (clip_start_seconds clip_info, clip_deep_link clip_info, clip_timestamp clip_info)
               | None \<Rightarrow>
                   (current_start st,
                    base_url (meta_video_id episode_meta) @ ''&t='' @ str_int (current_start st),
                    seconds_to_timestamp (current_start st)))
        in chunks st @
           [\<lparr> chunk_type = ''header'',
              chunk_section = current_header st,
              chunk_text = combined_text,
              speakers = join '', '' (sorted_list_of_set (speakers_seen (current_lines st))),
              episode_title = get_or (title episode_meta) '''',
              short_title = get_or (short episode_meta) '''',
              video_id = meta_video_id episode_meta,
              chunk_season = str_opt_int (season episode_meta),
              episode_num = str_opt_int (episode episode_meta),
              start_seconds = start_sec,
              timestamp = ts,
              deep_link = link \<rparr>])"

fun header_loop ::
  "(string \<rightharpoonup> clip_info) \<Rightarrow> episode_data \<Rightarrow> entry list \<Rightarrow> hstate \<Rightarrow> hstate" where
  "header_loop clip_lookup episode_meta [] st = st"
| "header_loop clip_lookup episode_meta (item # items) st =
     (case header item of
        Some h \<Rightarrow>
          header_loop clip_lookup episode_meta items
            \<lparr> chunks = flush_chunk clip_lookup episode_meta st,
              current_header = h,
              current_lines = [],
              current_start =
                (case clip_lookup h of None \<Rightarrow> 0 | Some clip_info \<Rightarrow> clip_start_seconds clip_info) \<rparr>
      | None \<Rightarrow>
          (case line item of
             Some _ \<Rightarrow>
               header_loop clip_lookup episode_meta items
                 (st\<lparr> current_lines := current_lines st @ [item] \<rparr>)
           | None \<Rightarrow> header_loop clip_lookup episode_meta items st))"

definition chunk_by_headers ::
  "entry list \<Rightarrow> (string \<rightharpoonup> clip_info) \<Rightarrow> episode_data \<Rightarrow> chunk list" where
  "chunk_by_headers transcript_items clip_lookup episode_meta =
     flush_chunk clip_lookup episode_meta
       (header_loop clip_lookup episode_meta transcript_items
          \<lparr> chunks = [], current_header = ''Introduction'', current_lines = [],
            current_start = 0 \<rparr>)"

section \<open>Window chunks (md\_parser.py, step 3B)\<close>

definition window_chunk :: "episode_data \<Rightarrow> int \<Rightarrow> entry list \<Rightarrow> chunk" where
  \<comment> \<open>the dictionary appended for a window that holds the lines \<open>window_lines\<close>\<close>
  "window_chunk episode_meta window_start window_lines =
     \<lparr> chunk_type = ''window'',
       chunk_section = ''~'' @ seconds_to_timestamp window_start,
       chunk_text = join '' '' (text_parts window_lines),
       speakers = join '', '' (sorted_list_of_set (speakers_seen window_lines)),
       episode_title = get_or (title episode_meta) '''',
       short_title = get_or (short episode_meta) '''',
       video_id = meta_video_id episode_meta,
       chunk_season = str_opt_int (season episode_meta),
       episode_num = str_opt_int (episode episode_meta),
       start_seconds = window_start,
       timestamp = seconds_to_timestamp window_start,
       deep_link = base_url (meta_video_id episode_meta) @ ''&t='' @ str_int window_start \<rparr>"

definition lines_in_window :: "entry list \<Rightarrow> int \<Rightarrow> int \<Rightarrow> entry list" where
  "lines_in_window lines window_start window_end =
     filter (\<lambda>l. window_start \<le> get_or (sec l) 0 \<and> get_or (sec l) 0 < window_end) lines"

text \<open>
  The \<^verbatim>\<open>while window_start <= total_secs\<close> loop. Nothing in the code makes
  \<^verbatim>\<open>step_seconds\<close> positive, so the loop may run forever: \<open>None\<close> is the loop that does
  not return.
\<close>

partial_function (option) window_loop ::
  "entry list \<Rightarrow> episode_data \<Rightarrow> int \<Rightarrow> int \<Rightarrow> int \<Rightarrow> int \<Rightarrow> chunk list \<Rightarrow> chunk list option" where
  [code]:
  "window_loop lines episode_meta window_seconds step_seconds total_secs window_start acc =
     (if window_start \<le> total_secs then
        window_loop lines episode_meta window_seconds step_seconds total_secs
          (window_start + step_seconds)
          (if lines_in_window lines window_start (window_start + window_seconds) \<noteq> []
           then acc @ [window_chunk episode_meta window_start
                         (lines_in_window lines window_start (window_start + window_seconds))]
           else acc)
      else Some acc)"

definition chunk_by_time_window ::
  "entry list \<Rightarrow> episode_data \<Rightarrow> int \<Rightarrow> int \<Rightarrow> chunk list option" where
  "chunk_by_time_window transcript_items episode_meta window_seconds step_seconds =
     (let lines = filter (\<lambda>item. line item \<noteq> None) transcript_items
      in if lines = [] then Some []
         else window_loop lines episode_meta window_seconds step_seconds
                (get_or (sec (last lines)) 0) 0 [])"

section \<open>Parsing one file and loading a directory (md\_parser.py, steps 4 and 5)\<close>

datatype py_error = ValueError | AttributeError | FileNotFoundError | OtherError

text \<open>
  A \<^verbatim>\<open>Path\<close>: \<^verbatim>\<open>str(md_file)\<close> is what \<^verbatim>\<open>parse_md_file\<close> receives, \<^verbatim>\<open>md_file.name\<close> is what
  the skip list is matched against and what the failure list records.
\<close>

record md_path =
  path_str :: string
  path_name :: string

text \<open>
  Reading the file, the regular expression and the YAML parser of \<^verbatim>\<open>split_frontmatter\<close> are
  outside the embedding: its outcome per path is a parameter \<open>split_frontmatter\<close> of the
  functions below. An outcome is an exception (\<open>Inl\<close>: the \<^verbatim>\<open>ValueError\<close> of a file without
  front matter, an I/O or YAML error), or the parsed front matter (\<open>Inr\<close>), which is \<open>None\<close>
  when YAML yields no mapping (an empty front matter parses to \<^verbatim>\<open>None\<close>) and the mapping
  otherwise.
\<close>

type_synonym frontmatter = "string \<Rightarrow> py_error + episode_data option"

definition parse_md_file :: "frontmatter \<Rightarrow> string \<Rightarrow> (py_error + chunk list) option" where
  \<comment> \<open>the outer \<open>None\<close> is a call that does not return\<close>
  "parse_md_file split_frontmatter filepath =
     (case split_frontmatter filepath of
        Inl e \<Rightarrow> Some (Inl e)
      | Inr None \<Rightarrow> Some (Inl AttributeError)
      | Inr (Some data) \<Rightarrow>
          (let transcript_items = get_or (transcript data) [];
               quotable_clips = get_or (quotableClips data) []
           in if transcript_items = [] then Some (Inr [])
              else
                let clip_lookup = build_clip_lookup (Some quotable_clips);
                    header_chunks = chunk_by_headers transcript_items clip_lookup data
                in (case chunk_by_time_window transcript_items data 60 30 of
                      None \<Rightarrow> None
                    | Some window_chunks \<Rightarrow> Some (Inr (header_chunks @ window_chunks)))))"

text \<open>
  The \<^verbatim>\<open>for md_file in md_files\<close> loop of \<^verbatim>\<open>load_all_episodes\<close>, on the two lists it
  fills: \<^verbatim>\<open>all_segments\<close> and \<^verbatim>\<open>failed\<close>. \<^verbatim>\<open>except Exception\<close> catches every exception of
  \<^verbatim>\<open>parse_md_file\<close>.
\<close>

fun load_loop ::
  "frontmatter \<Rightarrow> md_path list \<Rightarrow> chunk list \<Rightarrow> string list \<Rightarrow> (chunk list \<times> string list) option" where
  "load_loop split_frontmatter [] all_segments failed = Some (all_segments, failed)"
| "load_loop split_frontmatter (md_file # md_files) all_segments failed =
     (case parse_md_file split_frontmatter (path_str md_file) of
        None \<Rightarrow> None
      | Some (Inr segments) \<Rightarrow>
          load_loop split_frontmatter md_files (all_segments @ segments) failed
      | Some (Inl e) \<Rightarrow>
          load_loop split_frontmatter md_files all_segments (failed @ [path_name md_file]))"

definition SKIP_FILES :: "string set" where
  "SKIP_FILES = {''_template.md''}"

text \<open>
  \<open>dir_exists\<close> is \<^verbatim>\<open>episodes_path.exists()\<close> and \<open>listing\<close> the paths that
  \<^verbatim>\<open>episodes_path.glob("**/*.md")\<close> yields, in the order \<^verbatim>\<open>sorted\<close> puts them (dropping
  the skipped names before or after sorting gives the same list). The function returns
  \<^verbatim>\<open>all_segments\<close> alone: \<^verbatim>\<open>failed\<close> is printed and dropped.
\<close>

definition load_all_episodes ::
  "frontmatter \<Rightarrow> bool \<Rightarrow> md_path list \<Rightarrow> (py_error + chunk list) option" where
  "load_all_episodes split_frontmatter dir_exists listing =
     (if \<not> dir_exists then Some (Inl FileNotFoundError)
      else
        let md_files = filter (\<lambda>f. path_name f \<notin> SKIP_FILES) listing
        in if md_files = [] then Some (Inl ValueError)
           else (case load_loop split_frontmatter md_files [] [] of
                   None \<Rightarrow> None
                 | Some (all_segments, failed) \<Rightarrow> Some (Inr all_segments)))"

section \<open>Searching and deduplicating (search\_index.py)\<close>

text \<open>
  The minsearch index is external. A call \<^verbatim>\<open>index.search(query, filter_dict, boost_dict,
  num_results)\<close> is the record of its four arguments, and an index is any function from
  calls to ranked results. The calls made are appended to a log that is passed through,
  so that what was asked of the index can be stated.
\<close>

record index_call =
  call_query :: string
  call_filter_dict :: "(string \<times> string) list"
  call_boost_dict :: "(string \<times> nat) list"
  call_num_results :: int

type_synonym index = "index_call \<Rightarrow> chunk list"

definition filter_item :: "string \<Rightarrow> string option \<Rightarrow> (string \<times> string) list" where
  \<comment> \<open>\<^verbatim>\<open>if value: filter_dict[key] = value\<close> for \<^verbatim>\<open>value: str | None\<close>\<close>
  "filter_item key v = (case v of None \<Rightarrow> [] | Some s \<Rightarrow> if s \<noteq> [] then [(key, s)] else [])"

definition search_call ::
  "string \<Rightarrow> string option \<Rightarrow> string option \<Rightarrow> string option \<Rightarrow> int \<Rightarrow> index_call" where
  \<comment> \<open>the arguments that \<^verbatim>\<open>search\<close> passes to \<^verbatim>\<open>index.search\<close>\<close>
  "search_call query vid seas ctype top_k =
     \<lparr> call_query = query,
       call_filter_dict =
         filter_item ''video_id'' vid @ filter_item ''season'' seas @
         filter_item ''chunk_type'' ctype,
       call_boost_dict = [(''text'', 5), (''section'', 3), (''episode_title'', 1),
                          (''short_title'', 1), (''speakers'', 1)],
       call_num_results = top_k \<rparr>"

definition search ::
  "index \<Rightarrow> string \<Rightarrow> string option \<Rightarrow> string option \<Rightarrow> string option \<Rightarrow> int \<Rightarrow>
   index_call list \<Rightarrow> chunk list \<times> index_call list" where
  "search idx query vid seas ctype top_k log =
     (let call = search_call query vid seas ctype top_k
      in (idx call, log @ [call]))"

text \<open>
  \<^verbatim>\<open>deduplicate_results\<close>: \<open>seen\<close> holds the \<^verbatim>\<open>(video_id, start_seconds)\<close> pairs kept so far
  and \<open>unique\<close> the results kept so far. The results are the chunks the index stores, so
  both keys are present and the defaults of \<^verbatim>\<open>r.get\<close> are never used.
\<close>

definition is_duplicate :: "int \<Rightarrow> (string \<times> int) list \<Rightarrow> string \<Rightarrow> int \<Rightarrow> bool" where
  "is_duplicate min_gap_seconds seen vid start =
     list_ex (\<lambda>(kept_vid, kept_start). kept_vid = vid \<and> \<bar>kept_start - start\<bar> < min_gap_seconds) seen"

fun dedup_loop :: "int \<Rightarrow> chunk list \<Rightarrow> (string \<times> int) list \<Rightarrow> chunk list \<Rightarrow> chunk list" where
  "dedup_loop min_gap_seconds [] seen unique = unique"
| "dedup_loop min_gap_seconds (r # rs) seen unique =
     (if \<not> is_duplicate min_gap_seconds seen (video_id r) (start_seconds r)
      then dedup_loop min_gap_seconds rs (seen @ [(video_id r, start_seconds r)]) (unique @ [r])
      else dedup_loop min_gap_seconds rs seen unique)"

definition deduplicate_results :: "chunk list \<Rightarrow> int \<Rightarrow> chunk list" where
  "deduplicate_results results min_gap_seconds = dedup_loop min_gap_seconds results [] []"

section \<open>Retrieval (rag\_pipeline.py)\<close>

text \<open>The two attributes of \<^verbatim>\<open>PodcastRAG\<close> that \<^verbatim>\<open>retrieve\<close> reads.\<close>

record rag =
  rag_index :: index
  rag_top_k :: int

definition slice_to :: "'a list \<Rightarrow> int \<Rightarrow> 'a list" where
  \<comment> \<open>\<^verbatim>\<open>xs[:k]\<close>: a negative \<open>k\<close> counts from the end\<close>
  "slice_to xs k = (if 0 \<le> k then take (nat k) xs else take (nat (int (length xs) + k)) xs)"

definition merge_results :: "chunk list \<Rightarrow> chunk list \<Rightarrow> chunk list" where
  \<comment> \<open>the \<^verbatim>\<open>zip\<close> loop, then the two \<^verbatim>\<open>extend\<close> calls\<close>
  "merge_results header_results window_results =
     concat (map (\<lambda>(h, w). [h, w]) (zip header_results window_results)) @
     drop (length window_results) header_results @
     drop (length header_results) window_results"

definition retrieve ::
  "rag \<Rightarrow> string \<Rightarrow> string option \<Rightarrow> string option \<Rightarrow> index_call list \<Rightarrow>
   chunk list \<times> index_call list" where
  "retrieve self question vid seas log =
     (let (header_results, log1) =
            search (rag_index self) question vid seas (Some ''header'') (rag_top_k self) log;
          (window_results, log2) =
            search (rag_index self) question vid seas (Some ''window'') (rag_top_k self) log1;
          merged = merge_results header_results window_results;
          unique = deduplicate_results merged 30
      in (slice_to unique (rag_top_k self), log2))"

section \<open>Predicates and sample data used in the statements\<close>

text \<open>
  The sections of a document as the description of the header chunker has them: the label
  in force (\<^verbatim>\<open>Introduction\<close> before the first header) with the spoken lines met under it,
  one pair per header and one for the lines before the first header, in document order,
  whether or not any line was met.
\<close>

fun sections_from :: "string \<Rightarrow> entry list \<Rightarrow> entry list \<Rightarrow> (string \<times> entry list) list" where
  "sections_from label ls [] = [(label, ls)]"
| "sections_from label ls (item # items) =
     (case header item of
        Some h \<Rightarrow> (label, ls) # sections_from h [] items
      | None \<Rightarrow>
          (case line item of
             Some _ \<Rightarrow> sections_from label (ls @ [item]) items
           | None \<Rightarrow> sections_from label ls items))"

definition sections :: "entry list \<Rightarrow> (string \<times> entry list) list" where
  "sections transcript_items = sections_from ''Introduction'' [] transcript_items"

definition fallback_ok :: "(string \<rightharpoonup> clip_info) \<Rightarrow> episode_data \<Rightarrow> chunk \<Rightarrow> bool" where
  \<comment> \<open>a chunk whose section has no clip starts at 0 and links to offset 0\<close>
  "fallback_ok lk m c \<longleftrightarrow>
     lk (chunk_section c) \<noteq> None \<or>
     (start_seconds c = 0 \<and> deep_link c = base_url (meta_video_id m) @ ''&t=0'' \<and>
      timestamp c = ''0:00'')"

definition example_meta :: episode_data where
  "example_meta =
     \<lparr> title = Some ''AI in Healthcare'', short = Some ''Healthcare AI'',
       ids = Some \<lparr> youtube = Some ''IDzhmmKeNG4'' \<rparr>, season = Some 8, episode = Some 4,
       transcript = None, quotableClips = None \<rparr>"

definition empty_episode :: episode_data where
  "empty_episode = example_meta \<lparr> transcript := Some [] \<rparr>"

definition spoken_line :: "string \<Rightarrow> string \<Rightarrow> int \<Rightarrow> entry" where
  "spoken_line speaker txt s = \<lparr> header = None, line = Some txt, sec = Some s, who = Some speaker \<rparr>"

definition section_header :: "string \<Rightarrow> entry" where
  "section_header h = \<lparr> header = Some h, line = None, sec = None, who = None \<rparr>"

definition example_transcript :: "entry list" where
  "example_transcript =
     [section_header ''Welcome'',
      spoken_line ''Alexey'' ''Hi.'' 10,
      spoken_line ''Stefan'' ''Hello.'' 40,
      section_header ''A/B Testing'',
      spoken_line ''Alexey'' ''Do you test?'' 70,
      spoken_line ''Stefan'' ''Yes.'' 100]"

definition silent_transcript :: "entry list" where
  "silent_transcript =
     [section_header ''Welcome'',
      section_header ''Silence'',
      spoken_line '''' ''  '' 5,
      section_header ''Talk'',
      spoken_line ''Stefan'' '' Yes. '' 2161,
      spoken_line '''' ''  '' 2170]"

definition example_chunk :: "string \<Rightarrow> int \<Rightarrow> chunk" where
  "example_chunk vid s =
     \<lparr> chunk_type = ''header'', chunk_section = ''Personalization Strategy'',
       chunk_text = ''Stefan: We build a recommender system.'', speakers = ''Stefan'',
       episode_title = ''AI in Healthcare'', short_title = ''Healthcare AI'', video_id = vid,
       chunk_season = ''8'', episode_num = ''4'', start_seconds = s,
       timestamp = seconds_to_timestamp s,
       deep_link = base_url vid @ ''&t='' @ str_int s \<rparr>"

definition example_index :: index where
  \<comment> \<open>an index that answers every header query with the same two results, and nothing else\<close>
  "example_index call =
     (if (''chunk_type'', ''header'') \<in> set (call_filter_dict call)
      then [example_chunk ''IDzhmmKeNG4'' 2139, example_chunk ''IDzhmmKeNG4'' 2397]
      else [])"

section \<open>Properties of the timestamp format\<close>

lemma str_nat_small: "n < 10 \<Longrightarrow> str_nat n = [digit_char n]"
  by (subst str_nat.simps) simp

lemma str_nat_large: "\<not> n < 10 \<Longrightarrow> str_nat n = str_nat (n div 10) @ [digit_char (n mod 10)]"
  by (subst str_nat.simps) simp

lemma fmt_02d_two_digits:
  assumes "0 \<le> i" "i < 60"
  shows "fmt_02d i = [digit_char (nat i div 10), digit_char (nat i mod 10)]"
proof (cases "i < 10")
  case True
  with assms have "nat i < 10" "nat i div 10 = 0" "nat i mod 10 = nat i" by simp_all
  then show ?thesis
    using assms True by (simp add: fmt_02d_def str_int_def str_nat_small digit_char_def)
next
  case False
  with assms have "\<not> nat i < 10" "nat i div 10 < 10" by simp_all
  then show ?thesis
    using assms False by (simp add: fmt_02d_def str_int_def str_nat_large str_nat_small)
qed

lemma seconds_to_timestamp_shape:
  "seconds_to_timestamp s =
     str_int (s div 60) @ '':'' @
     [digit_char (nat (s mod 60) div 10), digit_char (nat (s mod 60) mod 10)]"
  by (simp add: seconds_to_timestamp_def fmt_02d_two_digits)

lemma str_int_0: "str_int 0 = ''0''"
  by (simp add: str_int_def str_nat.simps digit_char_def)

lemma seconds_to_timestamp_0: "seconds_to_timestamp 0 = ''0:00''"
  by (simp add: seconds_to_timestamp_def str_int_def fmt_02d_def str_nat.simps digit_char_def)

lemma digit_char_inj: "a < 10 \<Longrightarrow> b < 10 \<Longrightarrow> digit_char a = digit_char b \<Longrightarrow> a = b"
  unfolding digit_char_def
  by (subst (asm) nth_eq_iff_index_eq) simp_all

lemma str_nat_nonempty: "str_nat n \<noteq> []"
  by (subst str_nat.simps) simp

lemma str_nat_inj: "str_nat a = str_nat b \<Longrightarrow> a = b"
proof (induction a arbitrary: b rule: str_nat.induct)
  case (1 n)
  show ?case
  proof (cases "n < 10")
    case True
    note n = this
    show ?thesis
    proof (cases "b < 10")
      case True
      with n "1.prems" have "digit_char n = digit_char b" by (simp add: str_nat_small)
      with n True show ?thesis by (rule digit_char_inj)
    next
      case False
      with n "1.prems" have "str_nat (b div 10) = []" by (simp add: str_nat_small str_nat_large)
      with str_nat_nonempty show ?thesis by blast
    qed
  next
    case False
    note n = this
    show ?thesis
    proof (cases "b < 10")
      case True
      with n "1.prems" have "str_nat (n div 10) = []" by (simp add: str_nat_small str_nat_large)
      with str_nat_nonempty show ?thesis by blast
    next
      case bf: False
      with n "1.prems" have e: "str_nat (n div 10) = str_nat (b div 10)"
        "digit_char (n mod 10) = digit_char (b mod 10)"
        by (simp_all add: str_nat_large)
      from "1.IH" [OF n e(1)] have d: "n div 10 = b div 10" .
      have "n mod 10 = b mod 10" by (rule digit_char_inj [OF _ _ e(2)]) simp_all
      with d show ?thesis by (metis div_mult_mod_eq)
    qed
  qed
qed

lemma seconds_to_timestamp_inj:
  assumes "0 \<le> a" "0 \<le> b" "seconds_to_timestamp a = seconds_to_timestamp b"
  shows "a = b"
proof -
  let ?na = "nat (a mod 60)" and ?nb = "nat (b mod 60)"
  from assms(3) have
    q: "str_int (a div 60) = str_int (b div 60)" and
    d1: "digit_char (?na div 10) = digit_char (?nb div 10)" and
    d2: "digit_char (?na mod 10) = digit_char (?nb mod 10)"
    by (simp_all add: seconds_to_timestamp_shape)
  from assms(1,2) have "0 \<le> a div 60" "0 \<le> b div 60" by simp_all
  with q have "nat (a div 60) = nat (b div 60)"
    by (simp add: str_int_def str_nat_inj)
  with \<open>0 \<le> a div 60\<close> \<open>0 \<le> b div 60\<close> have dv: "a div 60 = b div 60" by simp
  have la: "?na < 60" and lb: "?nb < 60" by simp_all
  then have "?na div 10 < 10" "?nb div 10 < 10" by simp_all
  then have e1: "?na div 10 = ?nb div 10" using d1 by (rule digit_char_inj)
  have e2: "?na mod 10 = ?nb mod 10" by (rule digit_char_inj [OF _ _ d2]) simp_all
  from e1 e2 have "?na = ?nb" by (metis div_mult_mod_eq)
  then have "a mod 60 = b mod 60" by simp
  with dv show ?thesis by (metis div_mult_mod_eq)
qed

text \<open>
  Claim C7, as the code has it. \<^verbatim>\<open>seconds_to_timestamp\<close> writes the floor quotient by 60,
  a colon, and the remainder in exactly two digits; 150 gives \<^verbatim>\<open>2:30\<close> and 0 gives
  \<^verbatim>\<open>0:00\<close>. A clip without \<^verbatim>\<open>startOffset\<close> gets the start 0 and the timestamp \<^verbatim>\<open>0:00\<close>
  from \<^verbatim>\<open>build_clip_lookup\<close>. The formula holds for negative seconds too: they are
  formatted by floor division, not replaced by 0.
\<close>

theorem seconds_to_timestamp_format:
  "seconds_to_timestamp s =
     str_int (s div 60) @ '':'' @
     [digit_char (nat (s mod 60) div 10), digit_char (nat (s mod 60) mod 10)] \<and>
   seconds_to_timestamp 150 = ''2:30'' \<and>
   seconds_to_timestamp 0 = ''0:00'' \<and>
   build_clip_lookup (Some [\<lparr> name = Some n, startOffset = None, endOffset = e, url = Some u \<rparr>]) n =
     Some \<lparr> clip_start_seconds = 0, clip_end_seconds = get_or e 0, clip_deep_link = u,
            clip_timestamp = ''0:00'' \<rparr>"
proof -
  have a: "seconds_to_timestamp 150 = ''2:30''"
    by (simp add: seconds_to_timestamp_def str_int_def fmt_02d_def str_nat.simps digit_char_def)
  have b: "seconds_to_timestamp 0 = ''0:00''"
    by (simp add: seconds_to_timestamp_def str_int_def fmt_02d_def str_nat.simps digit_char_def)
  have c: "build_clip_lookup (Some [\<lparr> name = Some n, startOffset = None, endOffset = e, url = Some u \<rparr>]) n =
     Some \<lparr> clip_start_seconds = 0, clip_end_seconds = get_or e 0, clip_deep_link = u,
            clip_timestamp = ''0:00'' \<rparr>"
    by (simp add: build_clip_lookup_def get_or_def b)
  show ?thesis using seconds_to_timestamp_shape a b c by blast
qed

text \<open>
  Claim C7 says that negative values are treated as 0. The code formats \<open>- 5\<close> seconds as
  \<^verbatim>\<open>-1:55\<close>, which is not the timestamp of 0.
\<close>

theorem seconds_to_timestamp_negative_counterexample:
  "seconds_to_timestamp (- 5) = ''-1:55'' \<and> seconds_to_timestamp (- 5) \<noteq> seconds_to_timestamp 0"
  by (simp add: seconds_to_timestamp_def str_int_def fmt_02d_def str_nat.simps digit_char_def)

section \<open>Properties of deduplication\<close>

lemma dedup_loop_acc:
  "dedup_loop g rs seen u = u @ dedup_loop g rs seen []"
proof (induction rs arbitrary: seen u)
  case Nil
  show ?case by simp
next
  case (Cons r rs)
  show ?case
  proof (cases "is_duplicate g seen (video_id r) (start_seconds r)")
    case True
    then show ?thesis using Cons.IH [of seen u] by simp
  next
    case False
    let ?seen = "seen @ [(video_id r, start_seconds r)]"
    have "dedup_loop g (r # rs) seen u = (u @ [r]) @ dedup_loop g rs ?seen []"
      using False Cons.IH [of ?seen "u @ [r]"] by simp
    moreover have "dedup_loop g (r # rs) seen [] = [r] @ dedup_loop g rs ?seen []"
      using False Cons.IH [of ?seen "[r]"] by simp
    ultimately show ?thesis by simp
  qed
qed

lemma dedup_loop_keep:
  "\<not> is_duplicate g seen (video_id r) (start_seconds r) \<Longrightarrow>
   dedup_loop g (r # rs) seen [] = r # dedup_loop g rs (seen @ [(video_id r, start_seconds r)]) []"
  using dedup_loop_acc [of g rs "seen @ [(video_id r, start_seconds r)]" "[r]"] by simp

lemma dedup_loop_drop:
  "is_duplicate g seen (video_id r) (start_seconds r) \<Longrightarrow>
   dedup_loop g (r # rs) seen [] = dedup_loop g rs seen []"
  by simp

lemma dedup_loop_subseq: "subseq (dedup_loop g rs seen []) rs"
proof (induction rs arbitrary: seen)
  case Nil
  show ?case by simp
next
  case (Cons r rs)
  show ?case
  proof (cases "is_duplicate g seen (video_id r) (start_seconds r)")
    case True
    have "subseq (dedup_loop g rs seen []) (r # rs)"
      using Cons.IH [of seen] by (rule list_emb_Cons)
    then show ?thesis by (simp only: dedup_loop_drop [OF True])
  next
    case False
    have "subseq (r # dedup_loop g rs (seen @ [(video_id r, start_seconds r)]) []) (r # rs)"
      using Cons.IH [of "seen @ [(video_id r, start_seconds r)]"] by simp
    then show ?thesis by (simp only: dedup_loop_keep [OF False])
  qed
qed

lemma dedup_loop_idem:
  "dedup_loop g (dedup_loop g rs seen []) seen [] = dedup_loop g rs seen []"
proof (induction rs arbitrary: seen)
  case Nil
  show ?case by simp
next
  case (Cons r rs)
  show ?case
  proof (cases "is_duplicate g seen (video_id r) (start_seconds r)")
    case True
    show ?thesis by (simp only: dedup_loop_drop [OF True] Cons.IH)
  next
    case False
    show ?thesis by (simp only: dedup_loop_keep [OF False] Cons.IH)
  qed
qed

lemma dedup_loop_append:
  "dedup_loop g (xs @ ys) seen [] =
   dedup_loop g xs seen [] @
   dedup_loop g ys (seen @ map (\<lambda>r. (video_id r, start_seconds r)) (dedup_loop g xs seen [])) []"
proof (induction xs arbitrary: seen)
  case Nil
  show ?case by simp
next
  case (Cons r xs)
  show ?case
  proof (cases "is_duplicate g seen (video_id r) (start_seconds r)")
    case True
    show ?thesis
      using Cons.IH [of seen] by (simp only: dedup_loop_drop [OF True] append_Cons)
  next
    case False
    show ?thesis
      using Cons.IH [of "seen @ [(video_id r, start_seconds r)]"]
      by (simp only: dedup_loop_keep [OF False] append_Cons list.map append_assoc append_Nil)
  qed
qed

text \<open>
  Claim C5: deduplication is idempotent. Applying \<^verbatim>\<open>deduplicate_results\<close> to its own output,
  with the same gap, gives that output back.
\<close>

theorem dedup_idempotent:
  "deduplicate_results (deduplicate_results results min_gap_seconds) min_gap_seconds =
   deduplicate_results results min_gap_seconds"
  unfolding deduplicate_results_def by (rule dedup_loop_idem)

text \<open>
  Claim C6: the output of \<^verbatim>\<open>deduplicate_results\<close> is a subsequence of its input, so the kept
  results stand in their input order; and what has been accepted from a ranked list stays
  accepted, in place, whatever candidates follow: the output for \<open>results\<close> is a prefix of
  the output for \<open>results @ later\<close>.
\<close>

theorem dedup_subsequence:
  "subseq (deduplicate_results results min_gap_seconds) results \<and>
   prefix (deduplicate_results results min_gap_seconds)
          (deduplicate_results (results @ later) min_gap_seconds)"
  unfolding deduplicate_results_def
  by (simp add: dedup_loop_subseq dedup_loop_append)

text \<open>
  Claim C9: \<^verbatim>\<open>deduplicate_results\<close> always keeps the first result of a non-empty input, so
  its output is empty exactly when its input is; an input of one result is returned as it
  is.
\<close>

theorem dedup_keeps_first:
  "(deduplicate_results results min_gap_seconds = [] \<longleftrightarrow> results = []) \<and>
   (\<exists>rest. deduplicate_results (r # rs) min_gap_seconds = r # rest) \<and>
   deduplicate_results [r] min_gap_seconds = [r]"
proof -
  have first: "deduplicate_results (x # xs) g = x # dedup_loop g xs [(video_id x, start_seconds x)] []"
    for x xs g
    unfolding deduplicate_results_def
    by (simp add: dedup_loop_keep is_duplicate_def del: dedup_loop.simps(2))
  have "deduplicate_results results min_gap_seconds = [] \<longleftrightarrow> results = []"
    by (cases results) (simp_all add: first, simp add: deduplicate_results_def)
  moreover have "deduplicate_results [r] min_gap_seconds = [r]"
    by (simp add: first)
  ultimately show ?thesis by (simp add: first)
qed

section \<open>Properties of the header chunker\<close>

lemma flush_chunk_empty:
  "current_lines st = [] \<Longrightarrow> flush_chunk lk m st = chunks st"
  by (simp add: flush_chunk_def)

lemma flush_chunk_nonempty:
  assumes "current_lines st \<noteq> []"
  shows "\<exists>c. flush_chunk lk m st = chunks st @ [c] \<and>
             chunk_section c = current_header st \<and>
             chunk_text c = join '' '' (text_parts (current_lines st)) \<and>
             (lk (current_header st) = None \<longrightarrow>
                start_seconds c = current_start st \<and>
                deep_link c = base_url (meta_video_id m) @ ''&t='' @ str_int (current_start st) \<and>
                timestamp c = seconds_to_timestamp (current_start st))"
  using assms by (cases "lk (current_header st)") (simp_all add: flush_chunk_def)

lemma flush_chunk_fallback:
  assumes "lk (current_header st) = None \<Longrightarrow> current_start st = 0"
    and "list_all (fallback_ok lk m) (chunks st)"
  shows "list_all (fallback_ok lk m) (flush_chunk lk m st)"
proof (cases "current_lines st = []")
  case True
  with assms(2) show ?thesis by (simp add: flush_chunk_empty)
next
  case False
  from flush_chunk_nonempty [OF False, of lk m] obtain c where
    c: "flush_chunk lk m st = chunks st @ [c]" "chunk_section c = current_header st"
       "lk (current_header st) = None \<longrightarrow>
                start_seconds c = current_start st \<and>
                deep_link c = base_url (meta_video_id m) @ ''&t='' @ str_int (current_start st) \<and>
                timestamp c = seconds_to_timestamp (current_start st)"
    by auto
  have "fallback_ok lk m c"
  proof (cases "lk (current_header st)")
    case None
    with assms(1) c show ?thesis
      by (simp add: fallback_ok_def str_int_0 seconds_to_timestamp_0)
  next
    case (Some a)
    with c(2) show ?thesis by (simp add: fallback_ok_def)
  qed
  with assms(2) c(1) show ?thesis by simp
qed

lemma header_loop_fallback:
  assumes "lk (current_header st) = None \<Longrightarrow> current_start st = 0"
    and "list_all (fallback_ok lk m) (chunks st)"
  shows "(lk (current_header (header_loop lk m tr st)) = None \<longrightarrow>
            current_start (header_loop lk m tr st) = 0) \<and>
         list_all (fallback_ok lk m) (chunks (header_loop lk m tr st))"
  using assms
proof (induction tr arbitrary: st)
  case Nil
  then show ?case by simp
next
  case (Cons item items)
  show ?case
  proof (cases "header item")
    case (Some h)
    let ?st = "\<lparr> chunks = flush_chunk lk m st, current_header = h, current_lines = [],
              current_start = (case lk h of None \<Rightarrow> 0 | Some clip_info \<Rightarrow> clip_start_seconds clip_info) \<rparr>"
    have a: "lk (current_header ?st) = None \<Longrightarrow> current_start ?st = 0" by simp
    have b: "list_all (fallback_ok lk m) (chunks ?st)"
      using flush_chunk_fallback [OF Cons.prems] by simp
    show ?thesis using Cons.IH [OF a b] Some by simp
  next
    case None
    show ?thesis
    proof (cases "line item")
      case l: None
      show ?thesis using Cons.IH [OF Cons.prems] None l by simp
    next
      case l: (Some t)
      let ?st = "st\<lparr> current_lines := current_lines st @ [item] \<rparr>"
      have a: "lk (current_header ?st) = None \<Longrightarrow> current_start ?st = 0"
        using Cons.prems(1) by simp
      have b: "list_all (fallback_ok lk m) (chunks ?st)" using Cons.prems(2) by simp
      show ?thesis using Cons.IH [OF a b] None l by simp
    qed
  qed
qed

lemma chunk_by_headers_fallback:
  "list_all (fallback_ok lk m) (chunk_by_headers tr lk m)"
proof -
  let ?init = "\<lparr> chunks = [], current_header = ''Introduction'', current_lines = [],
            current_start = 0 \<rparr>"
  have a: "lk (current_header ?init) = None \<Longrightarrow> current_start ?init = 0" by simp
  have b: "list_all (fallback_ok lk m) (chunks ?init)" by simp
  from header_loop_fallback [OF a b, of tr]
  show ?thesis unfolding chunk_by_headers_def
    by (intro flush_chunk_fallback) simp_all
qed

lemma header_one_line:
  "chunk_by_headers [spoken_line w t s] Map.empty example_meta =
     [\<lparr> chunk_type = ''header'', chunk_section = ''Introduction'',
        chunk_text = text_part (spoken_line w t s),
        speakers = join '', '' (sorted_list_of_set (speakers_seen [spoken_line w t s])),
        episode_title = ''AI in Healthcare'', short_title = ''Healthcare AI'',
        video_id = ''IDzhmmKeNG4'', chunk_season = ''8'', episode_num = ''4'',
        start_seconds = 0, timestamp = ''0:00'',
        deep_link = ''https://www.youtube.com/watch?v=IDzhmmKeNG4&t=0'' \<rparr>]"
  by (simp add: chunk_by_headers_def flush_chunk_def spoken_line_def example_meta_def
      text_parts_def get_or_def meta_video_id_def str_opt_int_def str_int_def str_nat.simps
      digit_char_def base_url_def seconds_to_timestamp_0)

text \<open>
  Claim C2, as the code has it. When the label of a flushed section has no entry in the clip
  lookup, the excerpt's start-seconds is \<^verbatim>\<open>current_start\<close>, which is 0 for every such label
  (the loop sets it to the clip's start, or to 0 when there is no clip, and never reads the
  \<^verbatim>\<open>sec\<close> of a line); the deep link is the base video URL followed by \<^verbatim>\<open>&t=0\<close>, and the
  timestamp is \<^verbatim>\<open>0:00\<close>.
\<close>

theorem header_fallback_start_is_zero:
  assumes "c \<in> set (chunk_by_headers transcript_items clip_lookup episode_meta)"
    and "clip_lookup (chunk_section c) = None"
  shows "start_seconds c = 0 \<and>
         deep_link c = base_url (meta_video_id episode_meta) @ ''&t=0'' \<and>
         timestamp c = ''0:00''"
  using chunk_by_headers_fallback [of clip_lookup episode_meta transcript_items] assms
  by (auto simp: list_all_iff fallback_ok_def)

theorem header_fallback_start_is_zero_witness:
  "hd (chunk_by_headers [spoken_line ''Stefan'' ''Yes.'' 2161] Map.empty example_meta)
     \<in> set (chunk_by_headers [spoken_line ''Stefan'' ''Yes.'' 2161] Map.empty example_meta) \<and>
   (Map.empty :: string \<rightharpoonup> clip_info)
     (chunk_section (hd (chunk_by_headers [spoken_line ''Stefan'' ''Yes.'' 2161] Map.empty example_meta))) = None \<and>
   start_seconds (hd (chunk_by_headers [spoken_line ''Stefan'' ''Yes.'' 2161] Map.empty example_meta)) = 0 \<and>
   deep_link (hd (chunk_by_headers [spoken_line ''Stefan'' ''Yes.'' 2161] Map.empty example_meta)) =
     ''https://www.youtube.com/watch?v=IDzhmmKeNG4&t=0''"
proof -
  let ?cs = "chunk_by_headers [spoken_line ''Stefan'' ''Yes.'' 2161] Map.empty example_meta"
  have m: "hd ?cs \<in> set ?cs" by (simp add: header_one_line)
  have n: "(Map.empty :: string \<rightharpoonup> clip_info) (chunk_section (hd ?cs)) = None" by simp
  have v: "base_url (meta_video_id example_meta) @ ''&t=0'' = ''https://www.youtube.com/watch?v=IDzhmmKeNG4&t=0''"
    by (simp add: base_url_def meta_video_id_def example_meta_def get_or_def)
  from header_fallback_start_is_zero [OF m n] m n v show ?thesis by simp
qed

text \<open>
  Claim C2 says that the start-seconds is the timestamp of the first spoken line of the
  section. For a document whose only line is spoken at second 2161 and whose section has no
  clip, the excerpt starts at 0 and links to offset 0.
\<close>

theorem header_fallback_counterexample:
  "map start_seconds (chunk_by_headers [spoken_line ''Stefan'' ''Yes.'' 2161] Map.empty example_meta) = [0] \<and>
   map deep_link (chunk_by_headers [spoken_line ''Stefan'' ''Yes.'' 2161] Map.empty example_meta) =
     [''https://www.youtube.com/watch?v=IDzhmmKeNG4&t=0''] \<and>
   sec (spoken_line ''Stefan'' ''Yes.'' 2161) = Some 2161"
  by (simp add: header_one_line) (simp add: spoken_line_def)

lemma flush_chunk_labels:
  "map (\<lambda>c. (chunk_section c, chunk_text c)) (flush_chunk lk m st) =
     map (\<lambda>c. (chunk_section c, chunk_text c)) (chunks st) @
     (if current_lines st = [] then []
      else [(current_header st, join '' '' (text_parts (current_lines st)))])"
proof (cases "current_lines st = []")
  case True
  then show ?thesis by (simp add: flush_chunk_empty)
next
  case False
  from flush_chunk_nonempty [OF False, of lk m] obtain c where
    "flush_chunk lk m st = chunks st @ [c]" "chunk_section c = current_header st"
    "chunk_text c = join '' '' (text_parts (current_lines st))"
    by auto
  with False show ?thesis by simp
qed

lemma header_loop_sections:
  "map (\<lambda>c. (chunk_section c, chunk_text c)) (flush_chunk lk m (header_loop lk m tr st)) =
     map (\<lambda>c. (chunk_section c, chunk_text c)) (chunks st) @
     map (\<lambda>(h, ls). (h, join '' '' (text_parts ls)))
       (filter (\<lambda>(h, ls). ls \<noteq> []) (sections_from (current_header st) (current_lines st) tr))"
proof (induction tr arbitrary: st)
  case Nil
  show ?case by (simp add: flush_chunk_labels)
next
  case (Cons item items)
  show ?case
  proof (cases "header item")
    case (Some h)
    let ?st = "\<lparr> chunks = flush_chunk lk m st, current_header = h, current_lines = [],
              current_start = (case lk h of None \<Rightarrow> 0 | Some clip_info \<Rightarrow> clip_start_seconds clip_info) \<rparr>"
    show ?thesis using Cons.IH [of ?st] Some by (simp add: flush_chunk_labels)
  next
    case None
    show ?thesis
    proof (cases "line item")
      case l: None
      show ?thesis using Cons.IH [of st] None l by simp
    next
      case l: (Some t)
      show ?thesis using Cons.IH [of "st\<lparr> current_lines := current_lines st @ [item] \<rparr>"] None l
        by simp
    qed
  qed
qed

lemma join_empty_iff: "sep \<noteq> [] \<Longrightarrow> join sep (p # ps) = [] \<longleftrightarrow> ps = [] \<and> p = []"
  by (cases ps) simp_all

lemma text_part_empty_iff:
  "text_part e = [] \<longleftrightarrow> get_or (who e) '''' = '''' \<and> strip (get_or (line e) '''') = ''''"
  by (simp add: text_part_def Let_def)

lemma section_text_empty_iff:
  "join '' '' (text_parts (l # ls)) = '''' \<longleftrightarrow>
     ls = [] \<and> get_or (who l) '''' = '''' \<and> strip (get_or (line l) '''') = ''''"
  by (simp add: text_parts_def join_empty_iff text_part_empty_iff)

lemma silent_sections:
  "sections silent_transcript =
     [(''Introduction'', []), (''Welcome'', []),
      (''Silence'', [spoken_line '''' ''  '' 5]),
      (''Talk'', [spoken_line ''Stefan'' '' Yes. '' 2161, spoken_line '''' ''  '' 2170])]"
  by (simp add: sections_def silent_transcript_def section_header_def spoken_line_def)

lemma silent_texts:
  "text_part (spoken_line '''' ''  '' 5) = ''''"
  "text_part (spoken_line ''Stefan'' '' Yes. '' 2161) = ''Stefan: Yes.''"
  "text_part (spoken_line '''' ''  '' 2170) = ''''"
  by (simp_all add: text_part_def spoken_line_def get_or_def strip_def isspace_def)

text \<open>
  Claim C8, as the code has it. The header chunker emits one excerpt for each section that
  met at least one spoken line, in document order, with the joined lines as its text, and
  none for a section without lines. The text of an emitted excerpt is empty only when its
  section holds a single line that has no speaker and a blank text; with a speaker, a text
  that is not blank, or a second line, the text is not empty.
\<close>

theorem header_excerpts_per_section:
  "map (\<lambda>c. (chunk_section c, chunk_text c))
     (chunk_by_headers transcript_items clip_lookup episode_meta) =
     map (\<lambda>(h, ls). (h, join '' '' (text_parts ls)))
       (filter (\<lambda>(h, ls). ls \<noteq> []) (sections transcript_items)) \<and>
   (\<forall>c \<in> set (chunk_by_headers transcript_items clip_lookup episode_meta).
      chunk_text c = '''' \<longrightarrow>
      (\<exists>l. (chunk_section c, [l]) \<in> set (sections transcript_items) \<and>
           get_or (who l) '''' = '''' \<and> strip (get_or (line l) '''') = '''')) \<and>
   (join '' '' (text_parts (l # ls)) = '''' \<longleftrightarrow>
      ls = [] \<and> get_or (who l) '''' = '''' \<and> strip (get_or (line l) '''') = '''')"
proof -
  let ?pr = "\<lambda>c. (chunk_section c, chunk_text c)"
  let ?mk = "\<lambda>(h, ls). (h, join '' '' (text_parts ls))"
  let ?cs = "chunk_by_headers transcript_items clip_lookup episode_meta"
  have a: "map ?pr ?cs = map ?mk (filter (\<lambda>(h, ls). ls \<noteq> []) (sections transcript_items))"
    using header_loop_sections [of clip_lookup episode_meta transcript_items
        "\<lparr> chunks = [], current_header = ''Introduction'', current_lines = [], current_start = 0 \<rparr>"]
    by (simp add: chunk_by_headers_def sections_def)
  have b: "\<exists>l. (chunk_section c, [l]) \<in> set (sections transcript_items) \<and>
           get_or (who l) '''' = '''' \<and> strip (get_or (line l) '''') = ''''"
    if c: "c \<in> set ?cs" and e: "chunk_text c = ''''" for c
  proof -
    from c have "?pr c \<in> set (map ?pr ?cs)" by (rule imageI [of c "set ?cs" ?pr, folded set_map])
    with a have "?pr c \<in> set (map ?mk (filter (\<lambda>(h, ls). ls \<noteq> []) (sections transcript_items)))"
      by (simp only:)
    then obtain h ks where hk: "(h, ks) \<in> set (sections transcript_items)" "ks \<noteq> []"
      "chunk_section c = h" "chunk_text c = join '' '' (text_parts ks)"
      by auto
    from hk(2) obtain k ks' where ks: "ks = k # ks'" by (cases ks) auto
    from e hk(4) ks have "join '' '' (text_parts (k # ks')) = ''''" by simp
    then have "ks' = [] \<and> get_or (who k) '''' = '''' \<and> strip (get_or (line k) '''') = ''''"
      by (simp only: section_text_empty_iff)
    with hk(1,3) ks show ?thesis by auto
  qed
  from a b section_text_empty_iff [of l ls] show ?thesis by blast
qed

theorem header_excerpts_per_section_witness:
  "map (\<lambda>c. (chunk_section c, chunk_text c))
     (chunk_by_headers silent_transcript Map.empty example_meta) =
     [(''Silence'', ''''), (''Talk'', ''Stefan: Yes. '')] \<and>
   (\<exists>c l. c \<in> set (chunk_by_headers silent_transcript Map.empty example_meta) \<and>
          chunk_text c = '''' \<and>
          (chunk_section c, [l]) \<in> set (sections silent_transcript) \<and>
          get_or (who l) '''' = '''' \<and> strip (get_or (line l) '''') = '''')"
proof -
  let ?pr = "\<lambda>c. (chunk_section c, chunk_text c)"
  let ?cs = "chunk_by_headers silent_transcript Map.empty example_meta"
  note t = header_excerpts_per_section [of silent_transcript Map.empty example_meta]
  from t have a: "map ?pr ?cs = [(''Silence'', ''''), (''Talk'', ''Stefan: Yes. '')]"
    by (simp add: silent_sections text_parts_def silent_texts)
  then have "(''Silence'', '''') \<in> set (map ?pr ?cs)" by simp
  then obtain c where c: "c \<in> set ?cs" "chunk_text c = ''''" by auto
  with t obtain l where "(chunk_section c, [l]) \<in> set (sections silent_transcript)"
    "get_or (who l) '''' = ''''" "strip (get_or (line l) '''') = ''''"
    by blast
  with c have "\<exists>c l. c \<in> set ?cs \<and> chunk_text c = '''' \<and>
          (chunk_section c, [l]) \<in> set (sections silent_transcript) \<and>
          get_or (who l) '''' = '''' \<and> strip (get_or (line l) '''') = ''''"
    by blast
  with a show ?thesis by (rule conjI)
qed

text \<open>
  Claim C8 says that no header excerpt has an empty text. A section whose only line has no
  speaker and a blank text is emitted with the empty text.
\<close>

theorem header_text_empty_counterexample:
  "map chunk_text (chunk_by_headers [spoken_line '''' ''   '' 42] Map.empty example_meta) = ['''']"
  by (simp add: header_one_line) (simp add: text_part_def spoken_line_def get_or_def strip_def isspace_def)

section \<open>Properties of the window chunker\<close>

text \<open>
  The loop returns only when the step is positive or the start is already past the last
  line: with a step of 0 or less, a loop that is entered never returns.
\<close>

lemma window_loop_some_terminates:
  assumes "window_loop lines m w step tot ws acc = Some r"
  shows "0 < step \<or> tot < ws"
  using assms
proof (induction lines m w step tot ws acc r rule: window_loop.raw_induct)
  case (1 f lines m w step tot ws acc r)
  show ?case
  proof (cases "ws \<le> tot")
    case False
    then show ?thesis by simp
  next
    case True
    let ?acc = "if lines_in_window lines ws (ws + w) \<noteq> []
           then acc @ [window_chunk m ws (lines_in_window lines ws (ws + w))]
           else acc"
    from True "1.hyps" have a: "f lines m w step tot (ws + step) ?acc = Some r"
      by (simp split: if_splits)
    from True "1.prems" have b: "window_loop lines m w step tot (ws + step) ?acc = Some r"
      by (subst (asm) window_loop.simps) (simp split: if_splits)
    from "1.IH" [OF a b] have "0 < step \<or> tot < ws + step" .
    with True show ?thesis by linarith
  qed
qed (fact assms)

lemma window_loop_diverges:
  "step \<le> 0 \<Longrightarrow> ws \<le> tot \<Longrightarrow> window_loop lines m w step tot ws acc = None"
  using window_loop_some_terminates [of lines m w step tot ws acc]
  by (cases "window_loop lines m w step tot ws acc") auto

lemma window_loop_returns:
  assumes "0 < step"
  shows "\<exists>r. window_loop lines m w step tot ws acc = Some (acc @ r) \<and>
             (\<forall>c \<in> set r. \<exists>k::nat. start_seconds c = ws + int k * step) \<and>
             sorted_wrt (<) (map start_seconds r) \<and>
             (\<forall>c \<in> set r. chunk_section c = ''~'' @ seconds_to_timestamp (start_seconds c))"
proof (induction "nat (tot - ws + 1)" arbitrary: ws acc rule: less_induct)
  case less
  show ?case
  proof (cases "ws \<le> tot")
    case False
    then have "window_loop lines m w step tot ws acc = Some (acc @ [])"
      by (subst window_loop.simps) simp
    then show ?thesis by (intro exI [of _ "[]"]) simp
  next
    case True
    let ?wl = "lines_in_window lines ws (ws + w)"
    let ?new = "if ?wl \<noteq> [] then [window_chunk m ws ?wl] else []"
    from True assms have "nat (tot - (ws + step) + 1) < nat (tot - ws + 1)" by simp
    from less [OF this, of "acc @ ?new"] obtain r where
      r: "window_loop lines m w step tot (ws + step) (acc @ ?new) = Some ((acc @ ?new) @ r)"
         "\<forall>c \<in> set r. \<exists>k::nat. start_seconds c = ws + step + int k * step"
         "sorted_wrt (<) (map start_seconds r)"
         "\<forall>c \<in> set r. chunk_section c = ''~'' @ seconds_to_timestamp (start_seconds c)"
      by blast
    have eq: "window_loop lines m w step tot ws acc = Some (acc @ (?new @ r))"
      using True r(1) by (subst window_loop.simps) (simp split: if_splits)
    have mult: "\<exists>k::nat. start_seconds c = ws + int k * step" if "c \<in> set (?new @ r)" for c
    proof (cases "c \<in> set r")
      case True
      with r(2) obtain k :: nat where "start_seconds c = ws + step + int k * step" by blast
      then have "start_seconds c = ws + int (Suc k) * step" by (simp add: algebra_simps)
      then show ?thesis by blast
    next
      case False
      with that have "c = window_chunk m ws ?wl" by (simp split: if_splits)
      then have "start_seconds c = ws + int 0 * step" by (simp add: window_chunk_def)
      then show ?thesis by blast
    qed
    have later: "ws < start_seconds c" if "c \<in> set r" for c
    proof -
      from r(2) that obtain k :: nat where k: "start_seconds c = ws + step + int k * step" by blast
      have "0 \<le> int k * step" using assms by simp
      with k assms show ?thesis by linarith
    qed
    have "sorted_wrt (<) (map start_seconds (?new @ r))"
      using r(3) later by (simp add: window_chunk_def)
    moreover have "\<forall>c \<in> set (?new @ r). chunk_section c = ''~'' @ seconds_to_timestamp (start_seconds c)"
      using r(4) by (auto simp: window_chunk_def)
    ultimately show ?thesis using eq mult by blast
  qed
qed

lemma window_loop_four:
  assumes "sec l1 = Some 10" and "sec l2 = Some 40" and "sec l3 = Some 70" and "sec l4 = Some 100"
  shows "window_loop [l1, l2, l3, l4] m 60 30 100 0 [] =
           Some [window_chunk m 0 [l1, l2], window_chunk m 30 [l2, l3],
                 window_chunk m 60 [l3, l4], window_chunk m 90 [l4]]"
  using assms by (simp add: window_loop.simps lines_in_window_def get_or_def)

lemma example_lines:
  "filter (\<lambda>item. line item \<noteq> None) example_transcript =
     [spoken_line ''Alexey'' ''Hi.'' 10, spoken_line ''Stefan'' ''Hello.'' 40,
      spoken_line ''Alexey'' ''Do you test?'' 70, spoken_line ''Stefan'' ''Yes.'' 100]"
  by (simp add: example_transcript_def section_header_def spoken_line_def)

lemma example_windows:
  "chunk_by_time_window example_transcript example_meta 60 30 =
     Some [window_chunk example_meta 0 [spoken_line ''Alexey'' ''Hi.'' 10, spoken_line ''Stefan'' ''Hello.'' 40],
           window_chunk example_meta 30 [spoken_line ''Stefan'' ''Hello.'' 40, spoken_line ''Alexey'' ''Do you test?'' 70],
           window_chunk example_meta 60 [spoken_line ''Alexey'' ''Do you test?'' 70, spoken_line ''Stefan'' ''Yes.'' 100],
           window_chunk example_meta 90 [spoken_line ''Stefan'' ''Yes.'' 100]]"
proof -
  have "window_loop [spoken_line ''Alexey'' ''Hi.'' 10, spoken_line ''Stefan'' ''Hello.'' 40,
      spoken_line ''Alexey'' ''Do you test?'' 70, spoken_line ''Stefan'' ''Yes.'' 100] example_meta 60 30 100 0 [] =
     Some [window_chunk example_meta 0 [spoken_line ''Alexey'' ''Hi.'' 10, spoken_line ''Stefan'' ''Hello.'' 40],
           window_chunk example_meta 30 [spoken_line ''Stefan'' ''Hello.'' 40, spoken_line ''Alexey'' ''Do you test?'' 70],
           window_chunk example_meta 60 [spoken_line ''Alexey'' ''Do you test?'' 70, spoken_line ''Stefan'' ''Yes.'' 100],
           window_chunk example_meta 90 [spoken_line ''Stefan'' ''Yes.'' 100]]"
    by (rule window_loop_four) (simp_all add: spoken_line_def)
  then show ?thesis
    unfolding chunk_by_time_window_def Let_def example_lines
    by (simp add: get_or_def spoken_line_def)
qed

lemma window_chunk_text:
  "chunk_text (window_chunk m s ls) = join '' '' (text_parts ls)"
  "start_seconds (window_chunk m s ls) = s"
  by (simp_all add: window_chunk_def)

lemma spoken_line_text:
  "text_part (spoken_line ''Alexey'' ''Hi.'' 10) = ''Alexey: Hi.''"
  "text_part (spoken_line ''Stefan'' ''Hello.'' 40) = ''Stefan: Hello.''"
  "text_part (spoken_line ''Alexey'' ''Do you test?'' 70) = ''Alexey: Do you test?''"
  "text_part (spoken_line ''Stefan'' ''Yes.'' 100) = ''Stefan: Yes.''"
  by (simp_all add: text_part_def spoken_line_def get_or_def strip_def isspace_def)

text \<open>
  Claim C10: for a positive step (and any window length) \<^verbatim>\<open>chunk_by_time_window\<close> returns,
  every excerpt it emits starts at a non-negative multiple of the step, the starts are
  strictly increasing along the list, and so the window labels are pairwise distinct.
\<close>

theorem window_starts_increasing:
  assumes "0 < step_seconds"
  shows "\<exists>cs. chunk_by_time_window transcript_items episode_meta window_seconds step_seconds = Some cs \<and>
              (\<forall>c \<in> set cs. \<exists>k::nat. start_seconds c = int k * step_seconds) \<and>
              sorted_wrt (<) (map start_seconds cs) \<and>
              distinct (map chunk_section cs)"
proof -
  let ?lines = "filter (\<lambda>item. line item \<noteq> None) transcript_items"
  have "\<exists>cs. chunk_by_time_window transcript_items episode_meta window_seconds step_seconds = Some cs \<and>
              (\<forall>c \<in> set cs. \<exists>k::nat. start_seconds c = int k * step_seconds) \<and>
              sorted_wrt (<) (map start_seconds cs) \<and>
              (\<forall>c \<in> set cs. chunk_section c = ''~'' @ seconds_to_timestamp (start_seconds c))"
  proof (cases "?lines = []")
    case True
    then show ?thesis by (simp add: chunk_by_time_window_def)
  next
    case False
    from window_loop_returns [OF assms, of ?lines episode_meta window_seconds
        "get_or (sec (last ?lines)) 0" 0 "[]"]
    show ?thesis using False by (auto simp: chunk_by_time_window_def Let_def)
  qed
  then obtain cs where cs:
    "chunk_by_time_window transcript_items episode_meta window_seconds step_seconds = Some cs"
    "\<forall>c \<in> set cs. \<exists>k::nat. start_seconds c = int k * step_seconds"
    "sorted_wrt (<) (map start_seconds cs)"
    "\<forall>c \<in> set cs. chunk_section c = ''~'' @ seconds_to_timestamp (start_seconds c)"
    by blast
  let ?starts = "map start_seconds cs"
  let ?label = "\<lambda>s. ''~'' @ seconds_to_timestamp s"
  have nonneg: "0 \<le> s" if "s \<in> set ?starts" for s
  proof -
    from cs(2) that obtain k :: nat where "s = int k * step_seconds" by auto
    with assms show ?thesis by simp
  qed
  have "inj_on ?label (set ?starts)"
  proof (rule inj_onI)
    fix x y assume x: "x \<in> set ?starts" and y: "y \<in> set ?starts" and e: "?label x = ?label y"
    from e have "seconds_to_timestamp x = seconds_to_timestamp y" by simp
    with nonneg [OF x] nonneg [OF y] show "x = y" by (rule seconds_to_timestamp_inj)
  qed
  moreover from cs(3) have "distinct ?starts" by (simp add: strict_sorted_iff)
  ultimately have "distinct (map ?label ?starts)"
    using distinct_map [of ?label ?starts] by blast
  moreover from cs(4) have "map chunk_section cs = map ?label ?starts" by simp
  ultimately have "distinct (map chunk_section cs)" by (simp only:)
  with cs(1,2,3) show ?thesis by blast
qed

theorem window_starts_increasing_witness:
  "(0::int) < 30 \<and>
   (\<exists>cs. chunk_by_time_window example_transcript example_meta 60 30 = Some cs \<and>
         (\<forall>c \<in> set cs. \<exists>k::nat. start_seconds c = int k * 30) \<and>
         sorted_wrt (<) (map start_seconds cs) \<and>
         distinct (map chunk_section cs)) \<and>
   map_option (map start_seconds) (chunk_by_time_window example_transcript example_meta 60 30) =
     Some [0, 30, 60, 90]"
proof -
  have h: "(0::int) < 30" by simp
  have s: "map_option (map start_seconds) (chunk_by_time_window example_transcript example_meta 60 30) =
     Some [0, 30, 60, 90]"
    by (simp add: example_windows window_chunk_text)
  show ?thesis
    by (rule conjI [OF h conjI [OF window_starts_increasing [OF h] s]])
qed

text \<open>
  Claim C1, as the code has it. With \<^verbatim>\<open>window_seconds = 60\<close> and \<^verbatim>\<open>step_seconds = 30\<close>, a
  transcript whose spoken lines are at seconds 10, 40, 70 and 100 gives excerpts at the
  window starts 0, 30, 60 and 90; a window holds every line from its start up to 60
  seconds later, so window 0 holds the lines at 10 and 40, window 30 the lines at 40 and 70,
  window 60 the lines at 70 and 100, and window 90 the line at 100.
\<close>

theorem window_membership_10_40_70_100:
  assumes "filter (\<lambda>item. line item \<noteq> None) transcript_items = [l1, l2, l3, l4]"
    and "sec l1 = Some 10" and "sec l2 = Some 40" and "sec l3 = Some 70" and "sec l4 = Some 100"
  shows "chunk_by_time_window transcript_items episode_meta 60 30 =
           Some [window_chunk episode_meta 0 [l1, l2],
                 window_chunk episode_meta 30 [l2, l3],
                 window_chunk episode_meta 60 [l3, l4],
                 window_chunk episode_meta 90 [l4]]"
  unfolding chunk_by_time_window_def Let_def assms(1)
  using assms(5) window_loop_four [OF assms(2-5)] by (simp add: get_or_def)

theorem window_membership_witness:
  "filter (\<lambda>item. line item \<noteq> None) example_transcript =
     [spoken_line ''Alexey'' ''Hi.'' 10, spoken_line ''Stefan'' ''Hello.'' 40,
      spoken_line ''Alexey'' ''Do you test?'' 70, spoken_line ''Stefan'' ''Yes.'' 100] \<and>
   chunk_by_time_window example_transcript example_meta 60 30 =
     Some [window_chunk example_meta 0 [spoken_line ''Alexey'' ''Hi.'' 10, spoken_line ''Stefan'' ''Hello.'' 40],
           window_chunk example_meta 30 [spoken_line ''Stefan'' ''Hello.'' 40, spoken_line ''Alexey'' ''Do you test?'' 70],
           window_chunk example_meta 60 [spoken_line ''Alexey'' ''Do you test?'' 70, spoken_line ''Stefan'' ''Yes.'' 100],
           window_chunk example_meta 90 [spoken_line ''Stefan'' ''Yes.'' 100]]"
proof -
  have "chunk_by_time_window example_transcript example_meta 60 30 =
     Some [window_chunk example_meta 0 [spoken_line ''Alexey'' ''Hi.'' 10, spoken_line ''Stefan'' ''Hello.'' 40],
           window_chunk example_meta 30 [spoken_line ''Stefan'' ''Hello.'' 40, spoken_line ''Alexey'' ''Do you test?'' 70],
           window_chunk example_meta 60 [spoken_line ''Alexey'' ''Do you test?'' 70, spoken_line ''Stefan'' ''Yes.'' 100],
           window_chunk example_meta 90 [spoken_line ''Stefan'' ''Yes.'' 100]]"
    by (rule window_membership_10_40_70_100 [OF example_lines]) (simp_all add: spoken_line_def)
  with example_lines show ?thesis by (rule conjI)
qed

text \<open>
  Claim C1 says that window 30 holds only the line at 40 and window 60 only the line at 70.
  On a transcript with lines at 10, 40, 70 and 100 the excerpt of window 30 has the text of
  the lines at 40 and 70, and that of window 60 the text of the lines at 70 and 100.
\<close>

theorem window_membership_counterexample:
  "map_option (map (\<lambda>c. (start_seconds c, chunk_text c)))
     (chunk_by_time_window example_transcript example_meta 60 30) =
     Some [(0, ''Alexey: Hi. Stefan: Hello.''),
           (30, ''Stefan: Hello. Alexey: Do you test?''),
           (60, ''Alexey: Do you test? Stefan: Yes.''),
           (90, ''Stefan: Yes.'')] \<and>
   chunk_by_time_window example_transcript example_meta 60 30 \<noteq>
     Some [window_chunk example_meta 0 [spoken_line ''Alexey'' ''Hi.'' 10, spoken_line ''Stefan'' ''Hello.'' 40],
           window_chunk example_meta 30 [spoken_line ''Stefan'' ''Hello.'' 40],
           window_chunk example_meta 60 [spoken_line ''Alexey'' ''Do you test?'' 70],
           window_chunk example_meta 90 [spoken_line ''Stefan'' ''Yes.'' 100]]"
proof -
  have "chunk_text (window_chunk example_meta 30 [spoken_line ''Stefan'' ''Hello.'' 40, spoken_line ''Alexey'' ''Do you test?'' 70])
        \<noteq> chunk_text (window_chunk example_meta 30 [spoken_line ''Stefan'' ''Hello.'' 40])"
    by (simp add: window_chunk_text text_parts_def spoken_line_text)
  then have "window_chunk example_meta 30 [spoken_line ''Stefan'' ''Hello.'' 40, spoken_line ''Alexey'' ''Do you test?'' 70]
        \<noteq> window_chunk example_meta 30 [spoken_line ''Stefan'' ''Hello.'' 40]"
    by auto
  then show ?thesis
    by (simp add: example_windows window_chunk_text text_parts_def spoken_line_text)
qed

section \<open>Properties of the episode loader\<close>

lemma chunk_by_time_window_returns:
  "0 < step \<Longrightarrow> \<exists>cs. chunk_by_time_window tr m w step = Some cs"
  using window_loop_returns [of step "filter (\<lambda>item. line item \<noteq> None) tr" m w
      "get_or (sec (last (filter (\<lambda>item. line item \<noteq> None) tr))) 0" 0 "[]"]
  by (auto simp: chunk_by_time_window_def Let_def)

lemma parse_md_file_raises:
  "split p = Inl e \<Longrightarrow> parse_md_file split p = Some (Inl e)"
  "split p = Inr None \<Longrightarrow> parse_md_file split p = Some (Inl AttributeError)"
  by (simp_all add: parse_md_file_def)

lemma parse_md_file_no_transcript:
  "split p = Inr (Some data) \<Longrightarrow> get_or (transcript data) [] = [] \<Longrightarrow>
   parse_md_file split p = Some (Inr [])"
  by (simp add: parse_md_file_def)

lemma parse_md_file_returns:
  "split p = Inr (Some data) \<Longrightarrow> \<exists>segments. parse_md_file split p = Some (Inr segments)"
  using chunk_by_time_window_returns [of 30 "get_or (transcript data) []" data 60]
  by (auto simp: parse_md_file_def Let_def)

lemma load_loop_general:
  "load_loop split md_files all_segments failed =
     Some (all_segments @
             concat (map (\<lambda>f. case parse_md_file split (path_str f) of
                                 Some (Inr segments) \<Rightarrow> segments | _ \<Rightarrow> []) md_files),
           failed @
             map path_name
               (filter (\<lambda>f. case split (path_str f) of Inr (Some data) \<Rightarrow> False | _ \<Rightarrow> True)
                  md_files))"
proof (induction md_files arbitrary: all_segments failed)
  case Nil
  show ?case by simp
next
  case (Cons f fs)
  show ?case
  proof (cases "split (path_str f)")
    case (Inl e)
    then show ?thesis
      using Cons.IH [of all_segments "failed @ [path_name f]"]
      by (simp add: parse_md_file_raises)
  next
    case (Inr d)
    show ?thesis
    proof (cases d)
      case None
      with Inr show ?thesis
        using Cons.IH [of all_segments "failed @ [path_name f]"]
        by (simp add: parse_md_file_raises)
    next
      case (Some data)
      with Inr have s: "split (path_str f) = Inr (Some data)" by simp
      from parse_md_file_returns [of split "path_str f" data, OF s] obtain segments where
        "parse_md_file split (path_str f) = Some (Inr segments)" by blast
      then show ?thesis
        using Cons.IH [of "all_segments @ segments" failed] s by simp
    qed
  qed
qed

text \<open>
  Claim C4, as the code has it. The loop of \<^verbatim>\<open>load_all_episodes\<close> always returns; it
  collects the excerpts of every file that parses, in order, and the failure list holds
  the names of exactly the files whose parsing raised (no front matter, or front matter that
  is no mapping), whatever comes before or after them. A file without transcript content
  parses to no excerpts without raising, so it adds nothing to either list.
\<close>

theorem load_loop_isolates_failures:
  "load_loop split_frontmatter md_files [] [] =
     Some (concat (map (\<lambda>f. case parse_md_file split_frontmatter (path_str f) of
                              Some (Inr segments) \<Rightarrow> segments | _ \<Rightarrow> []) md_files),
           map path_name
             (filter (\<lambda>f. case split_frontmatter (path_str f) of
                             Inr (Some data) \<Rightarrow> False | _ \<Rightarrow> True) md_files)) \<and>
   parse_md_file (\<lambda>p. Inr (Some (data \<lparr> transcript := None \<rparr>))) filepath = Some (Inr []) \<and>
   parse_md_file (\<lambda>p. Inr (Some (data \<lparr> transcript := Some [] \<rparr>))) filepath = Some (Inr [])"
  using load_loop_general [of split_frontmatter md_files "[]" "[]"]
  by (simp add: parse_md_file_no_transcript get_or_def)

text \<open>
  Claim C4 says that a document without transcript content is recorded in the failure
  list. Of a broken file and a file with an empty transcript, only the broken one is
  recorded; and \<^verbatim>\<open>load_all_episodes\<close> returns the excerpts alone.
\<close>

theorem load_loop_no_transcript_counterexample:
  "load_loop (\<lambda>p. if p = ''episodes/empty.md'' then Inr (Some empty_episode) else Inl ValueError)
     [\<lparr> path_str = ''episodes/broken.md'', path_name = ''broken.md'' \<rparr>,
      \<lparr> path_str = ''episodes/empty.md'', path_name = ''empty.md'' \<rparr>] [] [] =
     Some ([], [''broken.md'']) \<and>
   load_all_episodes (\<lambda>p. if p = ''episodes/empty.md'' then Inr (Some empty_episode) else Inl ValueError)
     True
     [\<lparr> path_str = ''episodes/broken.md'', path_name = ''broken.md'' \<rparr>,
      \<lparr> path_str = ''episodes/empty.md'', path_name = ''empty.md'' \<rparr>] = Some (Inr [])"
proof -
  let ?split = "\<lambda>p. if p = ''episodes/empty.md'' then Inr (Some empty_episode) else Inl ValueError"
  have a: "parse_md_file ?split ''episodes/empty.md'' = Some (Inr [])"
    by (rule parse_md_file_no_transcript [where data = empty_episode])
       (simp_all add: empty_episode_def get_or_def)
  have b: "parse_md_file ?split ''episodes/broken.md'' = Some (Inl ValueError)"
    by (rule parse_md_file_raises) simp
  have l: "load_loop ?split
     [\<lparr> path_str = ''episodes/broken.md'', path_name = ''broken.md'' \<rparr>,
      \<lparr> path_str = ''episodes/empty.md'', path_name = ''empty.md'' \<rparr>] [] [] =
     Some ([], [''broken.md''])"
    by (simp add: a b)
  show ?thesis
    by (simp add: load_all_episodes_def SKIP_FILES_def l del: load_loop.simps)
qed

section \<open>Properties of retrieval\<close>

lemma retrieve_unfold:
  "retrieve self question vid seas log =
     (slice_to
        (deduplicate_results
           (merge_results
              (rag_index self (search_call question vid seas (Some ''header'') (rag_top_k self)))
              (rag_index self (search_call question vid seas (Some ''window'') (rag_top_k self))))
           30)
        (rag_top_k self),
      log @ [search_call question vid seas (Some ''header'') (rag_top_k self),
             search_call question vid seas (Some ''window'') (rag_top_k self)])"
  by (simp add: retrieve_def search_def Let_def)

lemma example_index_answers:
  "example_index (search_call q vid seas (Some ''header'') k) =
     [example_chunk ''IDzhmmKeNG4'' 2139, example_chunk ''IDzhmmKeNG4'' 2397]"
  "example_index (search_call q vid seas (Some ''window'') k) = []"
  by (auto simp: example_index_def search_call_def filter_item_def split: option.splits)

lemma example_dedup:
  "deduplicate_results [example_chunk ''IDzhmmKeNG4'' 2139, example_chunk ''IDzhmmKeNG4'' 2397] 30 =
     [example_chunk ''IDzhmmKeNG4'' 2139, example_chunk ''IDzhmmKeNG4'' 2397]"
  by (simp add: deduplicate_results_def is_duplicate_def example_chunk_def)

text \<open>
  Claim C3, as the code has it. \<^verbatim>\<open>retrieve\<close> has no guard on \<^verbatim>\<open>top_k\<close>: for
  \<^verbatim>\<open>top_k <= 0\<close> it still sends two queries to the index, one for header chunks and one for
  window chunks, each asking for \<^verbatim>\<open>top_k\<close> results. With \<^verbatim>\<open>top_k = 0\<close> it returns the
  empty list; with \<^verbatim>\<open>top_k < 0\<close> it returns the deduplicated merged list without its last
  \<^verbatim>\<open>-top_k\<close> results.
\<close>

theorem retrieve_nonpositive_top_k:
  assumes "rag_top_k self \<le> 0"
  shows "snd (retrieve self question vid seas log) =
           log @ [search_call question vid seas (Some ''header'') (rag_top_k self),
                  search_call question vid seas (Some ''window'') (rag_top_k self)] \<and>
         (rag_top_k self = 0 \<longrightarrow> fst (retrieve self question vid seas log) = []) \<and>
         (rag_top_k self < 0 \<longrightarrow>
            fst (retrieve self question vid seas log) =
              (let unique =
                     deduplicate_results
                       (merge_results
                          (rag_index self (search_call question vid seas (Some ''header'') (rag_top_k self)))
                          (rag_index self (search_call question vid seas (Some ''window'') (rag_top_k self))))
                       30
               in take (length unique - nat (- rag_top_k self)) unique))"
proof -
  have "nat (int n + k) = n - nat (- k)" if "k < 0" for n :: nat and k :: int
    using that by linarith
  then show ?thesis
    by (simp add: retrieve_unfold slice_to_def Let_def)
qed

theorem retrieve_nonpositive_top_k_witness:
  "rag_top_k \<lparr> rag_index = example_index, rag_top_k = - 1 \<rparr> \<le> 0 \<and>
   snd (retrieve \<lparr> rag_index = example_index, rag_top_k = - 1 \<rparr> ''A/B testing'' None (Some ''8'') []) =
     [search_call ''A/B testing'' None (Some ''8'') (Some ''header'') (- 1),
      search_call ''A/B testing'' None (Some ''8'') (Some ''window'') (- 1)] \<and>
   fst (retrieve \<lparr> rag_index = example_index, rag_top_k = - 1 \<rparr> ''A/B testing'' None (Some ''8'') []) =
     [example_chunk ''IDzhmmKeNG4'' 2139] \<and>
   fst (retrieve \<lparr> rag_index = example_index, rag_top_k = 0 \<rparr> ''A/B testing'' None (Some ''8'') []) = []"
proof -
  let ?self = "\<lparr> rag_index = example_index, rag_top_k = - 1 \<rparr>"
  let ?zero = "\<lparr> rag_index = example_index, rag_top_k = 0 \<rparr>"
  have h: "rag_top_k ?self \<le> 0" and z: "rag_top_k ?zero \<le> 0" by simp_all
  from retrieve_nonpositive_top_k [OF h, of "''A/B testing''" None "Some ''8''" "[]"]
       retrieve_nonpositive_top_k [OF z, of "''A/B testing''" None "Some ''8''" "[]"]
  show ?thesis
    by (simp add: example_index_answers merge_results_def example_dedup)
qed

text \<open>
  Claim C3 says that for \<^verbatim>\<open>top_k <= 0\<close> the index is not queried and the result is empty.
  With \<^verbatim>\<open>top_k = 0\<close> two queries reach the index; with \<^verbatim>\<open>top_k = -1\<close> and an index that
  answers the header query with two results far apart, one result is returned.
\<close>

theorem retrieve_queries_counterexample:
  "length (snd (retrieve \<lparr> rag_index = (\<lambda>call. []), rag_top_k = 0 \<rparr>
                  ''how does personalization work?'' None None [])) = 2 \<and>
   fst (retrieve \<lparr> rag_index = example_index, rag_top_k = - 1 \<rparr>
          ''how does personalization work?'' None None []) =
     [example_chunk ''IDzhmmKeNG4'' 2139]"
  by (simp add: retrieve_unfold example_index_answers merge_results_def example_dedup slice_to_def)

end
